theory Spec2Isabelle
  imports Complex_Main "HOL-Library.Log_Nat"
begin

section \<open>The Pomodoro timer of script.js\<close>

text \<open>
  The program is one React function component, \<^verbatim>\<open>App\<close>, with the state variables
  \<^verbatim>\<open>settings\<close>, \<^verbatim>\<open>mode\<close>, \<^verbatim>\<open>isRunning\<close>, \<^verbatim>\<open>roundsCompleted\<close>, \<^verbatim>\<open>secondsLeft\<close> and
  \<^verbatim>\<open>openSettings\<close>. Every event handler is modelled as a function from the state before
  the event to the state after React has re-rendered and run the effects.

  A JavaScript Number is an IEEE 754 double. The model keeps the Numbers that are
  integers, as \<open>int\<close>: the defaults are integers, the settings form clamps every numeric
  field with \<^verbatim>\<open>Math.max(1, v)\<close>, and the countdown only subtracts 1. Every sum, difference
  and product is rounded to 53 significant bits as the double arithmetic rounds it
  (\<open>to_double\<close> below), the quotient in \<^verbatim>\<open>formatTime\<close> is rounded as a double before the
  floor, and a Number is printed as \<^verbatim>\<open>Number.prototype.toString\<close> prints it. Fractional
  input and the overflow to \<^verbatim>\<open>Infinity\<close> (from \<open>2^1024\<close>) are outside the model.
  \<^verbatim>\<open>roundsCompleted\<close> starts at 0 and is only incremented or set to 0, so it is a \<open>nat\<close>.
\<close>

subsection \<open>Data\<close>

datatype Mode = Work | Short | Long

record settings =
  workMinutes :: int
  shortBreakMinutes :: int
  longBreakMinutes :: int
  roundsUntilLongBreak :: int
  autoStartNext :: bool
  sound :: bool

definition DEFAULT_SETTINGS :: settings where
  "DEFAULT_SETTINGS =
     \<lparr> workMinutes = 25, shortBreakMinutes = 5, longBreakMinutes = 15,
       roundsUntilLongBreak = 4, autoStartNext = False, sound = True \<rparr>"

text \<open>
  The state of \<^verbatim>\<open>App\<close>. The field \<open>tones\<close> counts the calls of \<^verbatim>\<open>beep()\<close>, the only
  effect of the component on the audio interface.
\<close>

record app_state =
  settings :: settings
  mode :: Mode
  isRunning :: bool
  roundsCompleted :: nat
  secondsLeft :: int
  openSettings :: bool
  tones :: nat

subsection \<open>Arithmetic of JavaScript\<close>

text \<open>Rounding to the nearest integer, a tie to the even one.\<close>

definition round_half_even :: "rat \<Rightarrow> int" where
  "round_half_even x =
     (let f = \<lfloor>x\<rfloor>; d = x - of_int f
      in if d < 1 / 2 then f else if 1 / 2 < d then f + 1 else if even f then f else f + 1)"

text \<open>
  The double nearest to an integer: an integer of at most 53 bits is a double; a longer
  one keeps its 53 leading bits, rounded to nearest, ties to even. It is applied to the
  exact result of every \<^verbatim>\<open>+\<close>, \<^verbatim>\<open>-\<close> and \<^verbatim>\<open>*\<close> of the program.
\<close>

definition to_double :: "int \<Rightarrow> int" where
  "to_double n =
     (let e = bitlen \<bar>n\<bar> - 53
      in if e \<le> 0 then n
         else sgn n * round_half_even (of_int \<bar>n\<bar> / 2 ^ nat e) * 2 ^ nat e)"

text \<open>
  \<^verbatim>\<open>a / b\<close> for integers \<open>a\<close> and \<open>b \<noteq> 0\<close>: the exact quotient rounded to 53 significant
  bits. \<open>e\<close> is the binary exponent of the quotient, \<open>ulp\<close> the distance between the
  doubles of that exponent.
\<close>

definition js_divide :: "int \<Rightarrow> int \<Rightarrow> rat" where
  "js_divide a b =
     (if a = 0 then 0
      else
        (let q = (of_int \<bar>a\<bar>) / (of_int \<bar>b\<bar>);
             e0 = bitlen \<bar>a\<bar> - bitlen \<bar>b\<bar>;
             e = (if q < 2 powi e0 then e0 - 1 else e0);
             ulp = 2 powi (e - 52)
         in of_int (sgn a * sgn b) * of_int (round_half_even (q / ulp)) * ulp))"

text \<open>
  \<^verbatim>\<open>a % b\<close> on integers: the remainder of the truncating division, with the sign of
  \<open>a\<close>; \<^verbatim>\<open>NaN\<close> (here \<open>None\<close>) when \<open>b = 0\<close>. The remainder of two doubles is a double,
  so nothing is rounded.
\<close>

definition js_rem :: "int \<Rightarrow> int \<Rightarrow> int option" where
  "js_rem a b = (if b = 0 then None else Some (sgn a * (\<bar>a\<bar> mod \<bar>b\<bar>)))"

subsection \<open>Rendering: the derived duration and its effect\<close>

text \<open>
  \<^verbatim>\<open>initialSeconds\<close> (lines 137-141) is a \<^verbatim>\<open>useMemo\<close> value of \<^verbatim>\<open>mode\<close> and \<^verbatim>\<open>settings\<close>.
\<close>

definition initialSeconds :: "settings \<Rightarrow> Mode \<Rightarrow> int" where
  "initialSeconds s m =
     (if m = Work then to_double (workMinutes s * 60)
      else if m = Short then to_double (shortBreakMinutes s * 60)
      else to_double (longBreakMinutes s * 60))"

text \<open>
  Line 144: \<^verbatim>\<open>useEffect(() => { setSecondsLeft(initialSeconds); }, [initialSeconds])\<close>.
  React runs the effect after a render only when a dependency differs from its value at
  the previous render; the only dependency is the number \<^verbatim>\<open>initialSeconds\<close>. So after
  the state updates of one event, \<open>secondsLeft\<close> is overwritten exactly when the new
  \<^verbatim>\<open>initialSeconds\<close> is a different number from the old one. \<open>prev\<close> is the state at the
  previous render, \<open>st\<close> the state with the event's updates applied.
\<close>

definition render_effects :: "app_state \<Rightarrow> app_state \<Rightarrow> app_state" where
  "render_effects prev st =
     (if initialSeconds (settings st) (mode st) = initialSeconds (settings prev) (mode prev)
      then st
      else st\<lparr>secondsLeft := initialSeconds (settings st) (mode st)\<rparr>)"

text \<open>The first render: Work, paused, no round completed (lines 132-143).\<close>

definition initial_state :: "settings \<Rightarrow> app_state" where
  "initial_state s =
     \<lparr> settings = s, mode = Work, isRunning = False, roundsCompleted = 0,
       secondsLeft = initialSeconds s Work, openSettings = False, tones = 0 \<rparr>"

subsection \<open>The tick and the completion of an interval\<close>

text \<open>\<^verbatim>\<open>beep()\<close> (lines 45-60) catches its own errors; it emits one tone.\<close>

definition beep :: "app_state \<Rightarrow> app_state" where
  "beep st = st\<lparr>tones := tones st + 1\<rparr>"

text \<open>
  \<^verbatim>\<open>onCompleteCycle\<close> (lines 158-171). It reads \<^verbatim>\<open>mode\<close>, \<^verbatim>\<open>roundsCompleted\<close> and
  \<^verbatim>\<open>settings\<close> of the current render and enqueues the updates in the order below; the
  last \<^verbatim>\<open>setIsRunning\<close> wins.
\<close>

definition onCompleteCycle :: "app_state \<Rightarrow> app_state" where
  "onCompleteCycle st =
     (let st1 = st\<lparr>isRunning := False\<rparr> in
      if mode st = Work then
        (let nextRounds = nat (to_double (int (roundsCompleted st) + 1));
             st2 = st1\<lparr>roundsCompleted := nextRounds\<rparr>;
             shouldLong = (js_rem (int nextRounds) (roundsUntilLongBreak (settings st)) = Some 0);
             nextMode = (if shouldLong then Long else Short);
             st3 = st2\<lparr>mode := nextMode\<rparr>
         in if autoStartNext (settings st) then st3\<lparr>isRunning := True\<rparr> else st3)
      else
        (let st2 = st1\<lparr>mode := Work\<rparr>
         in if autoStartNext (settings st) then st2\<lparr>isRunning := True\<rparr> else st2))"

text \<open>
  The callback given to \<^verbatim>\<open>useInterval\<close> (lines 147-155): the state updates it makes,
  before the re-render. \<^verbatim>\<open>useInterval\<close> saves the callback again after every render
  (line 37), so the interval always calls the one of the latest render, which reads the
  current \<^verbatim>\<open>mode\<close>, \<^verbatim>\<open>roundsCompleted\<close> and \<^verbatim>\<open>settings\<close>.
\<close>

definition tick_callback :: "app_state \<Rightarrow> app_state" where
  "tick_callback st =
     (let s = secondsLeft st in
      if s \<le> 1 then
        (let st1 = (if sound (settings st) then beep st else st);
             st2 = onCompleteCycle st1
         in st2\<lparr>secondsLeft := 0\<rparr>)
      else st\<lparr>secondsLeft := to_double (s - 1)\<rparr>)"

text \<open>One Tick: the callback, then the re-render with its effect.\<close>

definition tick :: "app_state \<Rightarrow> app_state" where
  "tick st = render_effects st (tick_callback st)"

text \<open>
  \<^verbatim>\<open>useInterval(callback, isRunning ? 1000 : null)\<close> (lines 35-43, 156): an interval
  exists only while \<^verbatim>\<open>isRunning\<close>; while paused no callback fires and nothing changes.
\<close>

definition interval_tick :: "app_state \<Rightarrow> app_state" where
  "interval_tick st = (if isRunning st then tick st else st)"

primrec ticks :: "nat \<Rightarrow> app_state \<Rightarrow> app_state" where
  "ticks 0 st = st"
| "ticks (Suc n) st = interval_tick (ticks n st)"

subsection \<open>The handlers of the user's actions\<close>

definition handleStartPause :: "app_state \<Rightarrow> app_state" where
  "handleStartPause st = render_effects st (st\<lparr>isRunning := \<not> isRunning st\<rparr>)"

definition handleReset :: "app_state \<Rightarrow> app_state" where
  "handleReset st =
     render_effects st
       (st\<lparr>isRunning := False, secondsLeft := initialSeconds (settings st) (mode st)\<rparr>)"

definition switchMode :: "Mode \<Rightarrow> app_state \<Rightarrow> app_state" where
  "switchMode next st = render_effects st (st\<lparr>isRunning := False, mode := next\<rparr>)"

text \<open>Line 225, the button Clear Rounds.\<close>

definition clearRounds :: "app_state \<Rightarrow> app_state" where
  "clearRounds st = render_effects st (st\<lparr>roundsCompleted := 0\<rparr>)"

text \<open>Line 249, \<^verbatim>\<open>onSave\<close> of the settings form.\<close>

definition onSave :: "settings \<Rightarrow> app_state \<Rightarrow> app_state" where
  "onSave s st = render_effects st (st\<lparr>settings := s, openSettings := False\<rparr>)"

text \<open>
  The settings form (lines 85-129) edits a local copy of the settings; every numeric
  field goes through \<^verbatim>\<open>Math.max(1, v)\<close> (lines 100-103), the two check boxes are stored
  as they are (lines 111, 117). Save hands the local copy to \<^verbatim>\<open>onSave\<close>.
\<close>

datatype form_event =
  EditWork int | EditShortBreak int | EditLongBreak int | EditRounds int
  | CheckAutoStart bool | CheckSound bool

fun setField :: "form_event \<Rightarrow> settings \<Rightarrow> settings" where
  "setField (EditWork v) l = l\<lparr>workMinutes := max 1 v\<rparr>"
| "setField (EditShortBreak v) l = l\<lparr>shortBreakMinutes := max 1 v\<rparr>"
| "setField (EditLongBreak v) l = l\<lparr>longBreakMinutes := max 1 v\<rparr>"
| "setField (EditRounds v) l = l\<lparr>roundsUntilLongBreak := max 1 v\<rparr>"
| "setField (CheckAutoStart b) l = l\<lparr>autoStartNext := b\<rparr>"
| "setField (CheckSound b) l = l\<lparr>sound := b\<rparr>"

text \<open>The settings the form and the defaults produce: every numeric field at least 1.\<close>

definition valid_settings :: "settings \<Rightarrow> bool" where
  "valid_settings s \<longleftrightarrow>
     1 \<le> workMinutes s \<and> 1 \<le> shortBreakMinutes s \<and> 1 \<le> longBreakMinutes s
     \<and> 1 \<le> roundsUntilLongBreak s"

text \<open>All the operations of the component on its state.\<close>

datatype action =
  StartPause | Reset | SwitchMode Mode | Tick | ClearRounds
  | OpenSettings | CloseSettings | Save settings

fun perform :: "action \<Rightarrow> app_state \<Rightarrow> app_state" where
  "perform StartPause st = handleStartPause st"
| "perform Reset st = handleReset st"
| "perform (SwitchMode m) st = switchMode m st"
| "perform Tick st = interval_tick st"
| "perform ClearRounds st = clearRounds st"
| "perform OpenSettings st = render_effects st (st\<lparr>openSettings := True\<rparr>)"
| "perform CloseSettings st = render_effects st (st\<lparr>openSettings := False\<rparr>)"
| "perform (Save s) st = onSave s st"

text \<open>The settings that Save commits come from the form, so they are valid.\<close>

definition action_ok :: "action \<Rightarrow> bool" where
  "action_ok a = (case a of Save s \<Rightarrow> valid_settings s | _ \<Rightarrow> True)"

subsection \<open>Derived values: progress and the formatted time\<close>




text \<open>The decimal numeral of a natural number.\<close>

definition digit_char :: "nat \<Rightarrow> char" where
  "digit_char d = ''0123456789'' ! d"

fun nat_to_string :: "nat \<Rightarrow> string" where
  "nat_to_string n =
     (if n < 10 then [digit_char n] else nat_to_string (n div 10) @ [digit_char (n mod 10)])"

text \<open>The equation of \<open>nat_to_string\<close> is unfolded by hand, not by the simplifier.\<close>

declare nat_to_string.simps [simp del]

text \<open>
  \<^verbatim>\<open>Number.prototype.toString\<close> on an integer-valued double \<open>x\<close>. The digits are those of
  the least number of digits \<open>k\<close> such that some \<open>s\<close> of \<open>k\<close> digits, followed by zeros up
  to \<open>n\<close> digits, reads back as \<open>x\<close>; of several such \<open>s\<close> the one nearest to \<open>x\<close>. They are
  printed with their zeros when \<open>n \<le> 21\<close> and in exponent notation otherwise. Up to
  \<open>2^53\<close> every integer is a double and no shorter numeral reads back as it, so the
  result is the plain decimal numeral.
\<close>

definition shortest_candidate :: "nat \<Rightarrow> nat \<Rightarrow> nat \<Rightarrow> nat option" where
  "shortest_candidate x n k =
     (let p = 10 ^ (n - k); lo = x div p; hi = lo + 1;
          ok = (\<lambda>s. 10 ^ (k - 1) \<le> s \<and> s < 10 ^ k \<and> to_double (int (s * p)) = int x)
      in if ok lo \<and> ok hi then
           (if x - lo * p < hi * p - x then Some lo
            else if hi * p - x < x - lo * p then Some hi
            else if even lo then Some lo else Some hi)
         else if ok lo then Some lo
         else if ok hi then Some hi
         else None)"

definition shortest_digits :: "nat \<Rightarrow> (nat \<times> nat \<times> nat) option" where
  "shortest_digits x =
     (let len = length (nat_to_string x)
      in if to_double (10 ^ len) = int x then Some (1, 1, len + 1)
         else (case List.map_filter
                      (\<lambda>k. map_option (\<lambda>s. (s, k, len)) (shortest_candidate x len k))
                      [1..<Suc len] of
                 [] \<Rightarrow> None
               | r # _ \<Rightarrow> Some r))"

definition number_to_string :: "nat \<Rightarrow> string" where
  "number_to_string x =
     (if x \<le> 2 ^ 53 then nat_to_string x
      else (case shortest_digits x of
              None \<Rightarrow> nat_to_string x
            | Some (s, k, n) \<Rightarrow>
                (let ds = nat_to_string s
                 in if n \<le> 21 then ds @ replicate (n - k) (CHR ''0'')
                    else (if k = 1 then ds else hd ds # CHR ''.'' # tl ds)
                         @ ''e+'' @ nat_to_string (n - 1))))"

definition toString :: "int \<Rightarrow> string" where
  "toString i =
     (if i < 0 then CHR ''-'' # number_to_string (nat (- i)) else number_to_string (nat i))"

text \<open>\<^verbatim>\<open>padStart(n, c)\<close> with a one-character filler.\<close>

definition padStart :: "nat \<Rightarrow> char \<Rightarrow> string \<Rightarrow> string" where
  "padStart n c s = replicate (n - length s) c @ s"

text \<open>
  \<^verbatim>\<open>formatTime\<close> (lines 29-33). \<^verbatim>\<open>Math.floor(totalSeconds / 60)\<close> is the floor of the
  rounded quotient; \<^verbatim>\<open>totalSeconds % 60\<close> is already an integer, so \<^verbatim>\<open>Math.floor\<close>
  leaves it.
\<close>

definition formatTime :: "int \<Rightarrow> string" where
  "formatTime totalSeconds =
     (let minutes = padStart 2 (CHR ''0'') (toString \<lfloor>js_divide totalSeconds 60\<rfloor>);
          seconds = padStart 2 (CHR ''0'')
            (case js_rem totalSeconds 60 of Some r \<Rightarrow> toString r | None \<Rightarrow> ''NaN'')
      in minutes @ '':'' @ seconds)"

text \<open>Reading a string of decimal digits back, to state what \<open>formatTime\<close> displays.\<close>

definition is_digit :: "char \<Rightarrow> bool" where
  "is_digit c \<longleftrightarrow> c \<in> set ''0123456789''"

definition digit_value :: "char \<Rightarrow> nat" where
  "digit_value c = of_char c - 48"

definition decimal_value :: "string \<Rightarrow> nat" where
  "decimal_value cs = foldl (\<lambda>acc c. 10 * acc + digit_value c) 0 cs"

subsection \<open>Loading the settings\<close>

text \<open>
  The values \<^verbatim>\<open>JSON.parse\<close> returns, and an object as the map of its own properties.
\<close>

datatype json =
  JNull | JBool bool | JNum rat | JStr string | JArr "json list"
  | JObj "(string \<times> json) list"

type_synonym js_object = "string \<rightharpoonup> json"

datatype exn = SecurityError | SyntaxError

definition STORAGE_KEY :: string where
  "STORAGE_KEY = ''pomodoro.settings.v1''"

definition settings_object :: "settings \<Rightarrow> js_object" where
  "settings_object s =
     [''workMinutes'' \<mapsto> JNum (of_int (workMinutes s)),
      ''shortBreakMinutes'' \<mapsto> JNum (of_int (shortBreakMinutes s)),
      ''longBreakMinutes'' \<mapsto> JNum (of_int (longBreakMinutes s)),
      ''roundsUntilLongBreak'' \<mapsto> JNum (of_int (roundsUntilLongBreak s)),
      ''autoStartNext'' \<mapsto> JBool (autoStartNext s),
      ''sound'' \<mapsto> JBool (sound s)]"

text \<open>
  The own enumerable properties that the spread \<^verbatim>\<open>...parsed\<close> copies: the members of an
  object, the indexed elements of an array, the indexed characters of a string, and
  nothing for \<^verbatim>\<open>null\<close>, a boolean or a number.
\<close>

definition own_props :: "json \<Rightarrow> (string \<times> json) list" where
  "own_props v =
     (case v of
        JObj kvs \<Rightarrow> kvs
      | JArr xs \<Rightarrow> zip (map nat_to_string [0..<length xs]) xs
      | JStr cs \<Rightarrow> zip (map nat_to_string [0..<length cs]) (map (\<lambda>c. JStr [c]) cs)
      | _ \<Rightarrow> [])"

definition spread :: "js_object \<Rightarrow> (string \<times> json) list \<Rightarrow> js_object" where
  "spread obj kvs = fold (\<lambda>(k, v) m. m(k \<mapsto> v)) kvs obj"

text \<open>
  \<^verbatim>\<open>loadSettings\<close> (lines 14-23). \<open>getItem\<close> is \<^verbatim>\<open>localStorage.getItem\<close>: it may throw,
  return \<^verbatim>\<open>null\<close> (\<open>None\<close>) or a string. \<open>parse\<close> is \<^verbatim>\<open>JSON.parse\<close>: it throws on a text
  that is not JSON. \<open>loadSettings_try\<close> is the body of the \<^verbatim>\<open>try\<close> block, \<open>Inl\<close> a thrown
  error; \<open>loadSettings\<close> adds the \<^verbatim>\<open>catch\<close>.
\<close>

definition loadSettings_try ::
  "(string \<Rightarrow> exn + string option) \<Rightarrow> (string \<Rightarrow> exn + json) \<Rightarrow> exn + js_object" where
  "loadSettings_try getItem parse =
     (case getItem STORAGE_KEY of
        Inl e \<Rightarrow> Inl e
      | Inr None \<Rightarrow> Inr (settings_object DEFAULT_SETTINGS)
      | Inr (Some raw) \<Rightarrow>
          if raw = [] then Inr (settings_object DEFAULT_SETTINGS)
          else (case parse raw of
                  Inl e \<Rightarrow> Inl e
                | Inr parsed \<Rightarrow>
                    Inr (spread (settings_object DEFAULT_SETTINGS) (own_props parsed))))"

definition loadSettings ::
  "(string \<Rightarrow> exn + string option) \<Rightarrow> (string \<Rightarrow> exn + json) \<Rightarrow> exn + js_object" where
  "loadSettings getItem parse =
     (case loadSettings_try getItem parse of
        Inl e \<Rightarrow> Inr (settings_object DEFAULT_SETTINGS)
      | Inr r \<Rightarrow> Inr r)"

subsection \<open>Concrete states and inputs\<close>

text \<open>
  Settings the form can produce (each numeric field at least 1) and states the running
  program reaches with them; they are the inputs of the evaluations below.
\<close>

text \<open>Work and short break both 25 minutes; the last second of a work interval.\<close>

definition st_equal_durations :: app_state where
  "st_equal_durations =
     \<lparr> settings = DEFAULT_SETTINGS\<lparr>shortBreakMinutes := 25\<rparr>, mode = Work,
       isRunning = True, roundsCompleted = 0, secondsLeft = 1, openSettings = False,
       tones = 0 \<rparr>"

text \<open>The same settings, 700 seconds before the end of the work interval.\<close>

definition st_equal_mid :: app_state where
  "st_equal_mid =
     \<lparr> settings = DEFAULT_SETTINGS\<lparr>shortBreakMinutes := 25\<rparr>, mode = Work,
       isRunning = True, roundsCompleted = 0, secondsLeft = 700, openSettings = False,
       tones = 0 \<rparr>"

text \<open>The default settings, mid-countdown, with the settings form open.\<close>

definition st_form_open :: app_state where
  "st_form_open =
     \<lparr> settings = DEFAULT_SETTINGS, mode = Work, isRunning = True, roundsCompleted = 0,
       secondsLeft = 700, openSettings = True, tones = 0 \<rparr>"

text \<open>A work interval of one minute with auto-start, at its beginning.\<close>

definition st_one_minute :: app_state where
  "st_one_minute =
     \<lparr> settings = DEFAULT_SETTINGS\<lparr>workMinutes := 1, autoStartNext := True\<rparr>,
       mode = Work, isRunning = True, roundsCompleted = 0, secondsLeft = 60,
       openSettings = False, tones = 0 \<rparr>"

text \<open>
  A work interval of \<open>2^51\<close> minutes, which the form accepts, at its beginning:
  \<open>2^51 * 60 = 15 * 2^53\<close> seconds.
\<close>

definition st_huge :: app_state where
  "st_huge =
     \<lparr> settings = DEFAULT_SETTINGS\<lparr>workMinutes := 2251799813685248\<rparr>, mode = Work,
       isRunning = True, roundsCompleted = 0, secondsLeft = 135107988821114880,
       openSettings = False, tones = 0 \<rparr>"

text \<open>
  The first render when the store holds \<^verbatim>\<open>{"shortBreakMinutes":-5}\<close>: \<^verbatim>\<open>loadSettings\<close>
  merges the stored fields over the defaults without looking at their values.
\<close>

definition st_negative_break :: app_state where
  "st_negative_break = initial_state (DEFAULT_SETTINGS\<lparr>shortBreakMinutes := - 5\<rparr>)"

text \<open>A stored blob with two of the six fields, and a \<^verbatim>\<open>JSON.parse\<close> that knows it.\<close>

definition stored_blob :: string where
  \<open>stored_blob = ''{"workMinutes":50,"sound":false}''\<close>

definition parse_blob :: "string \<Rightarrow> exn + json" where
  "parse_blob raw =
     (if raw = stored_blob
      then Inr (JObj [(''workMinutes'', JNum 50), (''sound'', JBool False)])
      else Inl SyntaxError)"

section \<open>Properties\<close>

subsection \<open>Basic facts\<close>

lemma valid_DEFAULT_SETTINGS: "valid_settings DEFAULT_SETTINGS"
  by (simp add: valid_settings_def DEFAULT_SETTINGS_def)

lemma setField_valid: "valid_settings l \<Longrightarrow> valid_settings (setField e l)"
  by (cases e) (simp_all add: valid_settings_def)

subsection \<open>Rounding\<close>

lemma round_half_even_of_int: "round_half_even (of_int k) = k"
  by (simp add: round_half_even_def)

lemma round_half_even_error: "\<bar>of_int (round_half_even x) - x\<bar> \<le> 1 / 2"
proof -
  have "of_int \<lfloor>x\<rfloor> \<le> x" "x < of_int \<lfloor>x\<rfloor> + 1"
    by linarith+
  then show ?thesis
    by (auto simp: round_half_even_def Let_def)
qed

lemma round_half_even_nonneg: "0 \<le> x \<Longrightarrow> 0 \<le> round_half_even x"
  by (auto simp: round_half_even_def Let_def)

lemma bitlen_one: "bitlen 1 = 1"
  by code_simp

lemma bitlen_60: "bitlen 60 = 6"
  by code_simp

text \<open>Up to \<open>2^53\<close> in magnitude every integer is a double.\<close>

lemma to_double_exact: "\<bar>n\<bar> \<le> 2 ^ 53 \<Longrightarrow> to_double n = n"
proof (cases "\<bar>n\<bar> < 2 ^ 53")
  case True
  then have "bitlen \<bar>n\<bar> \<le> 53"
    using bitlen_le_iff_power [of "\<bar>n\<bar>" 53] by simp
  then show ?thesis
    by (simp add: to_double_def)
next
  case False
  assume "\<bar>n\<bar> \<le> 2 ^ 53"
  with False have n: "\<bar>n\<bar> = 2 ^ 53" by simp
  have b: "bitlen \<bar>n\<bar> = 54"
    using bitlen_pow2 [of 1 53] by (simp add: n bitlen_one)
  have "(of_int \<bar>n\<bar> :: rat) / 2 ^ nat 1 = of_int (2 ^ 52)"
    by (simp add: n)
  then have "round_half_even (of_int \<bar>n\<bar> / 2 ^ nat 1) = 2 ^ 52"
    by (simp only: round_half_even_of_int)
  then have "to_double n = sgn n * 2 ^ 52 * 2"
    by (simp add: to_double_def b)
  also have "\<dots> = sgn n * \<bar>n\<bar>"
    by (simp add: n)
  finally show ?thesis
    by (simp add: mult_sgn_abs)
qed

lemma to_double_nonneg: "0 \<le> n \<Longrightarrow> 0 \<le> to_double n"
  by (auto simp: to_double_def Let_def sgn_if intro!: mult_nonneg_nonneg round_half_even_nonneg)

text \<open>
  Up to \<open>2^53\<close> the floor of the rounded quotient by 60 is the floor of the exact one:
  the quotient is below \<open>2^48\<close>, so the rounding moves it by at most \<open>1/64\<close>, and a
  quotient by 60 that is not an integer is at least \<open>1/60\<close> away from the integers.
\<close>

lemma js_divide_60_floor:
  assumes "0 \<le> t" and "t \<le> 2 ^ 53"
  shows "\<lfloor>js_divide t 60\<rfloor> = t div 60"
proof (cases "t = 0")
  case True
  then show ?thesis by (simp add: js_divide_def)
next
  case False
  with assms have pos: "0 < t" by simp
  define q :: rat where "q = of_int t / 60"
  define e0 where "e0 = bitlen t - 6"
  define e where "e = (if q < 2 powi e0 then e0 - 1 else e0)"
  define ulp :: rat where "ulp = 2 powi (e - 52)"
  define m where "m = round_half_even (q / ulp)"
  have jd: "js_divide t 60 = of_int m * ulp"
    using pos by (simp add: js_divide_def Let_def bitlen_60 q_def e0_def e_def ulp_def m_def)
  have ulp_pos: "0 < ulp"
    by (simp add: ulp_def)
  have bl: "2 ^ nat (bitlen t - 1) \<le> t"
    using bitlen_bounds [OF pos] by simp
  have bge: "1 \<le> bitlen t"
    using pos bitlen_eq_zero_iff [of t] bitlen_nonneg [of t] by linarith
  have low: "2 powi e \<le> q"
  proof (cases "q < 2 powi e0")
    case True
    have "(2::rat) powi (e0 - 1) = 2 powi (bitlen t - 1) / 2 powi 6"
      by (simp add: e0_def power_int_diff)
    also have "\<dots> = of_int (2 ^ nat (bitlen t - 1)) / 64"
      using bge by (simp add: power_int_def)
    also have "\<dots> \<le> of_int t / 64"
      using bl by (simp add: divide_right_mono)
    also have "\<dots> \<le> q"
      using pos by (simp add: q_def field_simps)
    finally show ?thesis
      using True by (simp add: e_def)
  next
    case False
    then show ?thesis by (simp add: e_def)
  qed
  have "q \<le> 2 ^ 53 / 60"
    using assms by (simp add: q_def divide_right_mono)
  also have "\<dots> < (2::rat) powi 48"
    by simp
  finally have "(2::rat) powi e < 2 powi 48"
    using low by simp
  then have "\<not> 48 \<le> e"
    using power_int_increasing [of 48 e "2::rat"] by auto
  then have "e - 52 \<le> - 5"
    by simp
  then have "ulp \<le> 2 powi (- 5)"
    unfolding ulp_def by (intro power_int_increasing) simp_all
  then have ulp_le: "ulp \<le> 1 / 32"
    by (simp add: power_int_minus_divide)
  have "\<bar>of_int m - q / ulp\<bar> \<le> 1 / 2"
    unfolding m_def by (rule round_half_even_error)
  then have "\<bar>of_int m - q / ulp\<bar> * ulp \<le> 1 / 2 * ulp"
    using ulp_pos by (intro mult_right_mono) simp_all
  moreover have "(of_int m - q / ulp) * ulp = of_int m * ulp - q"
    using ulp_pos by (simp add: field_simps)
  then have "\<bar>of_int m - q / ulp\<bar> * ulp = \<bar>of_int m * ulp - q\<bar>"
    using ulp_pos by (metis abs_mult abs_of_pos)
  ultimately have err: "\<bar>of_int m * ulp - q\<bar> \<le> 1 / 64"
    using ulp_le by linarith
  have split: "t = 60 * (t div 60) + t mod 60" "0 \<le> t mod 60" "t mod 60 < 60"
    by simp_all
  show ?thesis
  proof (cases "t mod 60 = 0")
    case True
    then have qn: "q = of_int (t div 60)"
    proof -
      have "t = 60 * (t div 60)"
        using split(1) True by simp
      then have "(of_int t :: rat) = 60 * of_int (t div 60)"
        by (metis of_int_mult of_int_numeral)
      then show ?thesis
        by (simp add: q_def)
    qed
    define k where "k = nat (52 - e)"
    have "e - 52 = - int k"
      using \<open>\<not> 48 \<le> e\<close> by (simp add: k_def)
    then have ulp_eq: "ulp = 1 / 2 ^ k"
      by (simp add: ulp_def power_int_minus_divide)
    then have "q / ulp = of_int (t div 60 * 2 ^ k)"
      by (simp add: qn)
    then have "m = t div 60 * 2 ^ k"
      unfolding m_def by (simp only: round_half_even_of_int)
    then have "of_int m * ulp = q"
      by (simp add: qn ulp_eq)
    then show ?thesis
      by (simp add: jd qn)
  next
    case False
    then have r: "1 \<le> t mod 60" "t mod 60 \<le> 59"
      using split by linarith+
    have "(of_int t :: rat) = of_int (60 * (t div 60) + t mod 60)"
      by simp
    then have "(of_int t :: rat) = 60 * of_int (t div 60) + of_int (t mod 60)"
      by (simp only: of_int_add of_int_mult of_int_numeral)
    then have "q = of_int (t div 60) + of_int (t mod 60) / 60"
      by (simp add: q_def field_simps)
    then have "of_int (t div 60) + 1 / 60 \<le> q" "q \<le> of_int (t div 60) + 59 / 60"
      using r by (simp_all add: field_simps)
    then have "of_int (t div 60) \<le> of_int m * ulp" "of_int m * ulp < of_int (t div 60) + 1"
      using err by linarith+
    then show ?thesis
      by (simp add: jd floor_unique)
  qed
qed


subsection \<open>Durations\<close>

lemma initialSeconds_nonneg: "valid_settings s \<Longrightarrow> 0 \<le> initialSeconds s m"
  by (simp add: valid_settings_def initialSeconds_def to_double_nonneg)

lemma initialSeconds_exact:
  "\<bar>workMinutes s * 60\<bar> \<le> 2 ^ 53 \<Longrightarrow> initialSeconds s Work = workMinutes s * 60"
  by (simp add: initialSeconds_def to_double_exact)

lemma render_effects_nonneg:
  "valid_settings (settings st) \<Longrightarrow> 0 \<le> secondsLeft st
   \<Longrightarrow> 0 \<le> secondsLeft (render_effects prev st)"
  by (simp add: render_effects_def initialSeconds_nonneg)

text \<open>The first render (section 4.1 of the specification: Work, paused, no round).\<close>

lemma initial_state_fields:
  "mode (initial_state s) = Work" "isRunning (initial_state s) = False"
  "roundsCompleted (initial_state s) = 0"
  "secondsLeft (initial_state s) = to_double (workMinutes s * 60)"
  by (simp_all add: initial_state_def initialSeconds_def)

text \<open>
  On a positive dividend, \<^verbatim>\<open>a % b === 0\<close> is divisibility; a divisor 0 gives \<^verbatim>\<open>NaN\<close>,
  which is not 0, and 0 divides no positive number either.
\<close>

lemma js_rem_zero_iff: "0 < a \<Longrightarrow> js_rem a b = Some 0 \<longleftrightarrow> b dvd a"
  by (cases "b = 0") (simp_all add: js_rem_def mod_eq_0_iff_dvd)

subsection \<open>Reset and Clear Rounds\<close>

text \<open>
  C4. For every state, Reset pauses the timer and puts \<open>secondsLeft\<close> back to the full
  duration of the current mode, whatever it was before; the mode, the completed rounds
  and every other field stay as they were.
\<close>

theorem handleReset_spec:
  "handleReset st =
     st\<lparr>isRunning := False, secondsLeft := initialSeconds (settings st) (mode st)\<rparr>
   \<and> isRunning (handleReset st) = False
   \<and> secondsLeft (handleReset st) = initialSeconds (settings st) (mode st)
   \<and> mode (handleReset st) = mode st
   \<and> roundsCompleted (handleReset st) = roundsCompleted st"
  by (simp add: handleReset_def render_effects_def)

text \<open>
  C6. For every state, Clear Rounds sets \<open>roundsCompleted\<close> to 0 and changes nothing
  else: the mode, the running flag, the seconds left and the settings are the same,
  whatever the mode is and whether or not the timer runs.
\<close>

theorem clearRounds_spec:
  "clearRounds st = st\<lparr>roundsCompleted := 0\<rparr>
   \<and> roundsCompleted (clearRounds st) = 0
   \<and> mode (clearRounds st) = mode st
   \<and> isRunning (clearRounds st) = isRunning st
   \<and> secondsLeft (clearRounds st) = secondsLeft st
   \<and> settings (clearRounds st) = settings st"
  by (simp add: clearRounds_def render_effects_def)

subsection \<open>The completion of an interval\<close>

text \<open>
  What \<open>onCompleteCycle\<close> leaves in the state, in closed form, while the count of rounds
  is below \<open>2^53\<close>.
\<close>

lemma next_round: "int r < 2 ^ 53 \<Longrightarrow> nat (to_double (int r + 1)) = r + 1"
  by (simp add: to_double_exact)

lemma onCompleteCycle_eq:
  "int (roundsCompleted st) < 2 ^ 53 \<Longrightarrow>
   onCompleteCycle st =
     st\<lparr>isRunning := autoStartNext (settings st),
        roundsCompleted := (if mode st = Work then roundsCompleted st + 1 else roundsCompleted st),
        mode := (if mode st = Work
                 then (if roundsUntilLongBreak (settings st) dvd int (roundsCompleted st + 1)
                       then Long else Short)
                 else Work)\<rparr>"
  by (simp add: onCompleteCycle_def Let_def js_rem_zero_iff next_round)

text \<open>
  The completing tick: the mode, the rounds and the running flag are those of the
  completion transition. \<open>secondsLeft\<close> is set to 0 by the callback, and the effect of
  line 144 replaces the 0 by the new mode's duration only when that duration is a
  different number from the duration of the completed mode.
\<close>

lemma tick_completion:
  assumes "secondsLeft st \<le> 1" and "int (roundsCompleted st) < 2 ^ 53"
  shows "mode (tick st) =
           (if mode st = Work
            then (if roundsUntilLongBreak (settings st) dvd int (roundsCompleted st + 1)
                  then Long else Short)
            else Work)"
    and "roundsCompleted (tick st) =
           (if mode st = Work then roundsCompleted st + 1 else roundsCompleted st)"
    and "isRunning (tick st) = autoStartNext (settings st)"
    and "settings (tick st) = settings st"
    and "secondsLeft (tick st) =
           (if initialSeconds (settings st) (mode (tick st)) = initialSeconds (settings st) (mode st)
            then 0 else initialSeconds (settings st) (mode (tick st)))"
  using assms
  by (simp_all add: tick_def tick_callback_def render_effects_def onCompleteCycle_eq beep_def
      Let_def)

text \<open>
  C1. The specification has the completion transition reset \<open>secondsLeft\<close> to the full
  duration of the new mode, for every state and settings. With work and short break both set to
  25 minutes, the tick that completes a work interval goes to the short break with one
  round completed and the timer paused, but \<open>secondsLeft\<close> stays 0 while the full
  duration of the new mode is 1500: the two durations are the same number, so the effect
  that resets \<open>secondsLeft\<close> does not run.
\<close>

theorem completion_equal_durations:
  "valid_settings (settings st_equal_durations)
   \<and> tick st_equal_durations =
       st_equal_durations\<lparr>mode := Short, isRunning := False, roundsCompleted := 1,
                           secondsLeft := 0, tones := 1\<rparr>
   \<and> secondsLeft (tick st_equal_durations) = 0
   \<and> initialSeconds (settings (tick st_equal_durations)) (mode (tick st_equal_durations)) = 1500"
  by (simp add: st_equal_durations_def tick_def tick_callback_def onCompleteCycle_def
      render_effects_def initialSeconds_def DEFAULT_SETTINGS_def js_rem_def beep_def Let_def
      valid_settings_def to_double_exact)

subsection \<open>Manual mode switch\<close>

text \<open>
  What holds for every switch: paused, the target mode, the rounds untouched, and
  \<open>secondsLeft\<close> reset when the target's duration differs from the current one.
\<close>

lemma switchMode_fields:
  "isRunning (switchMode next st) = False"
  "mode (switchMode next st) = next"
  "roundsCompleted (switchMode next st) = roundsCompleted st"
  "initialSeconds (settings st) next \<noteq> initialSeconds (settings st) (mode st)
   \<Longrightarrow> secondsLeft (switchMode next st) = initialSeconds (settings st) next"
  by (simp_all add: switchMode_def render_effects_def)

text \<open>
  C5. The specification has a manual mode switch reset \<open>secondsLeft\<close> to the full
  duration of the target mode and never carry the remaining time over. With work and short break
  both set to 25 minutes and 700 seconds left of the work interval, switching to the
  short break pauses and changes the mode, but the 700 seconds are carried over; the
  full duration of the target is 1500.
\<close>

theorem switchMode_equal_durations:
  "valid_settings (settings st_equal_mid)
   \<and> switchMode Short st_equal_mid = st_equal_mid\<lparr>isRunning := False, mode := Short\<rparr>
   \<and> secondsLeft (switchMode Short st_equal_mid) = 700
   \<and> initialSeconds (settings (switchMode Short st_equal_mid)) Short = 1500"
  by (simp add: st_equal_mid_def switchMode_def render_effects_def initialSeconds_def
      DEFAULT_SETTINGS_def valid_settings_def to_double_exact)

subsection \<open>Saving the settings\<close>

text \<open>
  C3, as stated: every committed settings change re-derives \<open>secondsLeft\<close>. It does not
  when the duration of the current mode stays the same: with the default settings and
  700 seconds left of the work interval, unchecking the sound alert and saving leaves the
  700 seconds; the full duration is 1500.
\<close>

theorem onSave_keeps_progress_counterexample:
  "secondsLeft (onSave (setField (CheckSound False) (settings st_form_open)) st_form_open)
   \<noteq> initialSeconds (setField (CheckSound False) (settings st_form_open))
        (mode (onSave (setField (CheckSound False) (settings st_form_open)) st_form_open))"
  by (simp add: st_form_open_def onSave_def render_effects_def initialSeconds_def
      DEFAULT_SETTINGS_def to_double_exact)

text \<open>
  C3, amended. A committed settings change that changes the full duration of the
  current mode sets \<open>secondsLeft\<close> to the new full duration, whatever the progress of the
  countdown was; a change that leaves that duration as it was leaves \<open>secondsLeft\<close> as it
  was. In both cases the settings are replaced and the mode is unchanged.
\<close>

theorem onSave_secondsLeft:
  "(initialSeconds s (mode st) \<noteq> initialSeconds (settings st) (mode st) \<longrightarrow>
      secondsLeft (onSave s st) = initialSeconds s (mode (onSave s st)))
   \<and> (initialSeconds s (mode st) = initialSeconds (settings st) (mode st) \<longrightarrow>
      secondsLeft (onSave s st) = secondsLeft st)
   \<and> settings (onSave s st) = s \<and> mode (onSave s st) = mode st"
  by (simp add: onSave_def render_effects_def)

theorem onSave_secondsLeft_witness:
  "initialSeconds (setField (EditWork 30) (settings st_form_open)) (mode st_form_open)
     \<noteq> initialSeconds (settings st_form_open) (mode st_form_open)
   \<and> secondsLeft (onSave (setField (EditWork 30) (settings st_form_open)) st_form_open) = 1800
   \<and> initialSeconds (setField (CheckSound False) (settings st_form_open)) (mode st_form_open)
     = initialSeconds (settings st_form_open) (mode st_form_open)
   \<and> secondsLeft (onSave (setField (CheckSound False) (settings st_form_open)) st_form_open) = 700"
proof -
  have a: "initialSeconds (setField (EditWork 30) (settings st_form_open)) (mode st_form_open)
      \<noteq> initialSeconds (settings st_form_open) (mode st_form_open)"
    by (simp add: st_form_open_def initialSeconds_def DEFAULT_SETTINGS_def to_double_exact)
  have b: "initialSeconds (setField (CheckSound False) (settings st_form_open)) (mode st_form_open)
      = initialSeconds (settings st_form_open) (mode st_form_open)"
    by (simp add: st_form_open_def initialSeconds_def DEFAULT_SETTINGS_def to_double_exact)
  have "secondsLeft (onSave (setField (EditWork 30) (settings st_form_open)) st_form_open)
      = initialSeconds (setField (EditWork 30) (settings st_form_open)) (mode st_form_open)"
    using onSave_secondsLeft [of "setField (EditWork 30) (settings st_form_open)" st_form_open] a
    by simp
  then have c: "secondsLeft (onSave (setField (EditWork 30) (settings st_form_open)) st_form_open)
      = 1800"
    by (simp add: st_form_open_def initialSeconds_def DEFAULT_SETTINGS_def to_double_exact)
  have "secondsLeft (onSave (setField (CheckSound False) (settings st_form_open)) st_form_open)
      = secondsLeft st_form_open"
    using onSave_secondsLeft [of "setField (CheckSound False) (settings st_form_open)" st_form_open] b
    by simp
  then have d: "secondsLeft (onSave (setField (CheckSound False) (settings st_form_open)) st_form_open)
      = 700"
    by (simp add: st_form_open_def)
  from a b c d show ?thesis by simp
qed

subsection \<open>Counting down\<close>

text \<open>Up to \<open>2^53\<close> the subtraction of 1 is exact.\<close>

lemma tick_decrement:
  "1 < secondsLeft st \<Longrightarrow> secondsLeft st \<le> 2 ^ 53
   \<Longrightarrow> tick st = st\<lparr>secondsLeft := secondsLeft st - 1\<rparr>"
  by (simp add: tick_def tick_callback_def render_effects_def to_double_exact)

lemma ticks_before_completion:
  "isRunning st \<Longrightarrow> int n < secondsLeft st \<Longrightarrow> secondsLeft st \<le> 2 ^ 53 \<Longrightarrow>
   ticks n st = st\<lparr>secondsLeft := secondsLeft st - int n\<rparr>"
proof (induction n)
  case 0
  then show ?case by simp
next
  case (Suc n)
  then have prev: "ticks n st = st\<lparr>secondsLeft := secondsLeft st - int n\<rparr>"
    by simp
  have "1 < secondsLeft (ticks n st)" "isRunning (ticks n st)"
    "secondsLeft (ticks n st) \<le> 2 ^ 53"
    using Suc.prems by (simp_all add: prev)
  then have "interval_tick (ticks n st) =
      (ticks n st)\<lparr>secondsLeft := secondsLeft (ticks n st) - 1\<rparr>"
    by (simp add: interval_tick_def tick_decrement)
  then show ?case
    by (simp add: prev algebra_simps)
qed

lemma one_minute_ticks:
  "secondsLeft st_one_minute = 1 * 60 \<and> isRunning st_one_minute
   \<and> secondsLeft (ticks 60 st_one_minute) = 300
   \<and> secondsLeft (ticks 61 st_one_minute) = 299
   \<and> secondsLeft (ticks 61 st_one_minute) \<noteq> max 0 (1 * 60 - int 61)"
  by code_simp

text \<open>The double nearest to \<open>15 * 2^53 - 1\<close> is \<open>15 * 2^53\<close>.\<close>

lemma to_double_huge: "to_double (135107988821114880 - 1) = 135107988821114880"
  by code_simp

text \<open>
  C2, as stated: from \<open>secondsLeft = D * 60\<close> and running, \<open>N\<close> ticks give
  \<open>max 0 (D * 60 - N)\<close> for every \<open>N\<close>. With a work interval of one minute, short breaks
  of five minutes and auto-start, tick 60 completes the interval and the short break
  begins with 300 seconds, and tick 61 leaves 299, where the formula gives 0. And with a
  work interval of \<open>2^51\<close> minutes the first tick leaves \<open>secondsLeft\<close> as it was: the
  doubles around \<open>2^51 * 60\<close> are 16 apart, and the difference is rounded back.
\<close>

theorem ticks_past_completion_counterexample:
  "secondsLeft st_one_minute = 1 * 60 \<and> isRunning st_one_minute
   \<and> secondsLeft (ticks 60 st_one_minute) = 300
   \<and> secondsLeft (ticks 61 st_one_minute) = 299
   \<and> secondsLeft (ticks 61 st_one_minute) \<noteq> max 0 (1 * 60 - int 61)
   \<and> secondsLeft st_huge = 2251799813685248 * 60 \<and> isRunning st_huge
   \<and> secondsLeft (ticks 1 st_huge) = 2251799813685248 * 60
   \<and> secondsLeft (ticks 1 st_huge) \<noteq> max 0 (2251799813685248 * 60 - int 1)"
proof -
  have "ticks 1 st_huge = st_huge"
    using to_double_huge
    by (simp add: st_huge_def interval_tick_def tick_def tick_callback_def render_effects_def)
  then have "secondsLeft (ticks 1 st_huge) = 2251799813685248 * 60"
    by (simp add: st_huge_def)
  moreover have "secondsLeft st_huge = 2251799813685248 * 60" "isRunning st_huge"
    by (simp_all add: st_huge_def)
  ultimately show ?thesis
    using one_minute_ticks by simp
qed

text \<open>
  C2, amended. For every positive duration \<open>D\<close> with \<open>D * 60\<close> at most \<open>2^53\<close> and every
  \<open>N\<close> below \<open>D * 60\<close>, starting from \<open>secondsLeft = D * 60\<close> and running, \<open>N\<close> ticks give
  \<open>secondsLeft = D * 60 - N\<close>, which is \<open>max 0 (D * 60 - N)\<close>, and change nothing else; the
  callback of the next tick after \<open>D * 60 - 1\<close> of them sets \<open>secondsLeft\<close> to 0 and
  completes the interval.
\<close>

theorem ticks_countdown:
  assumes "0 < D" and "D * 60 \<le> 2 ^ 53" and "secondsLeft st = D * 60" and "isRunning st"
    and "int N < D * 60"
  shows "ticks N st = st\<lparr>secondsLeft := D * 60 - int N\<rparr>
         \<and> secondsLeft (ticks N st) = max 0 (D * 60 - int N)
         \<and> (int N + 1 = D * 60 \<longrightarrow>
              tick_callback (ticks N st) =
                (onCompleteCycle (if sound (settings st) then beep (ticks N st) else ticks N st))
                  \<lparr>secondsLeft := 0\<rparr>)"
proof -
  have eq: "ticks N st = st\<lparr>secondsLeft := D * 60 - int N\<rparr>"
    using ticks_before_completion [of st N] assms by simp
  moreover have "secondsLeft (ticks N st) = max 0 (D * 60 - int N)"
    using assms by (simp add: eq)
  moreover have "int N + 1 = D * 60 \<longrightarrow>
      tick_callback (ticks N st) =
        (onCompleteCycle (if sound (settings st) then beep (ticks N st) else ticks N st))
          \<lparr>secondsLeft := 0\<rparr>"
    by (simp add: eq tick_callback_def Let_def)
  ultimately show ?thesis by simp
qed

theorem ticks_countdown_witness:
  "(0::int) < 1 \<and> (1::int) * 60 \<le> 2 ^ 53
   \<and> secondsLeft st_one_minute = 1 * 60 \<and> isRunning st_one_minute
   \<and> int 59 < 1 * 60 \<and> int 59 + 1 = 1 * 60
   \<and> ticks 59 st_one_minute = st_one_minute\<lparr>secondsLeft := 1\<rparr>
   \<and> secondsLeft (ticks 59 st_one_minute) = max 0 (1 * 60 - int 59)
   \<and> secondsLeft (tick_callback (ticks 59 st_one_minute)) = 0"
proof -
  have h: "secondsLeft st_one_minute = 1 * 60" "isRunning st_one_minute"
    by (simp_all add: st_one_minute_def)
  have "ticks 59 st_one_minute = st_one_minute\<lparr>secondsLeft := 1 * 60 - int 59\<rparr>
      \<and> secondsLeft (ticks 59 st_one_minute) = max 0 (1 * 60 - int 59)
      \<and> (int 59 + 1 = 1 * 60 \<longrightarrow>
           tick_callback (ticks 59 st_one_minute) =
             (onCompleteCycle (if sound (settings st_one_minute)
                then beep (ticks 59 st_one_minute) else ticks 59 st_one_minute))
               \<lparr>secondsLeft := 0\<rparr>)"
    by (rule ticks_countdown) (simp_all add: h)
  moreover have last: "int 59 + 1 = 1 * 60"
    by simp
  ultimately have e1: "ticks 59 st_one_minute = st_one_minute\<lparr>secondsLeft := 1 * 60 - int 59\<rparr>"
    and e2: "secondsLeft (ticks 59 st_one_minute) = max 0 (1 * 60 - int 59)"
    and e3: "tick_callback (ticks 59 st_one_minute) =
             (onCompleteCycle (if sound (settings st_one_minute)
                then beep (ticks 59 st_one_minute) else ticks 59 st_one_minute))
               \<lparr>secondsLeft := 0\<rparr>"
    by blast+
  have e4: "secondsLeft (tick_callback (ticks 59 st_one_minute)) = 0"
    by (subst e3) simp
  from h e1 e2 e4 last show ?thesis by simp
qed

subsection \<open>The seconds left are never negative\<close>

lemma tick_callback_facts:
  "settings (tick_callback st) = settings st"
  "0 \<le> secondsLeft st \<Longrightarrow> 0 \<le> secondsLeft (tick_callback st)"
  by (simp_all add: tick_callback_def onCompleteCycle_def beep_def Let_def to_double_nonneg)

lemma perform_settings:
  "settings (perform a st) = (case a of Save s \<Rightarrow> s | _ \<Rightarrow> settings st)"
  by (cases a)
     (simp_all add: handleStartPause_def handleReset_def switchMode_def interval_tick_def
        tick_def clearRounds_def onSave_def render_effects_def tick_callback_facts)

text \<open>
  C10, as stated: from every state with \<open>secondsLeft \<ge> 0\<close> every operation keeps
  \<open>secondsLeft\<close> non-negative, and a tick above 1 decrements by exactly 1. The settings
  loaded from the store are not validated: with a stored short break of -5 minutes, the
  first render has 1500 seconds left, and both the tab Short Break and, once the timer
  runs and has counted down to 1, the completing tick leave \<open>secondsLeft = -300\<close>. And
  from \<open>15 * 2^53\<close> seconds a tick leaves \<open>secondsLeft\<close> as it was, not one less.
\<close>

theorem secondsLeft_negative_counterexample:
  "0 \<le> secondsLeft st_negative_break
   \<and> secondsLeft (perform (SwitchMode Short) st_negative_break) = - 300
   \<and> 0 \<le> secondsLeft (st_negative_break\<lparr>isRunning := True, secondsLeft := 1\<rparr>)
   \<and> secondsLeft (perform Tick (st_negative_break\<lparr>isRunning := True, secondsLeft := 1\<rparr>))
       = - 300
   \<and> 1 < secondsLeft st_huge \<and> isRunning st_huge
   \<and> secondsLeft (perform Tick st_huge) = secondsLeft st_huge"
proof -
  have "secondsLeft (perform Tick st_huge) = secondsLeft st_huge"
    using to_double_huge
    by (simp add: st_huge_def interval_tick_def tick_def tick_callback_def render_effects_def)
  moreover have "1 < secondsLeft st_huge" "isRunning st_huge"
    by (simp_all add: st_huge_def)
  moreover have "0 \<le> secondsLeft st_negative_break"
    "secondsLeft (perform (SwitchMode Short) st_negative_break) = - 300"
    by (simp_all add: st_negative_break_def initial_state_def switchMode_def render_effects_def
        initialSeconds_def DEFAULT_SETTINGS_def to_double_exact)
  moreover have
    "secondsLeft (perform Tick (st_negative_break\<lparr>isRunning := True, secondsLeft := 1\<rparr>))
       = - 300"
    by (simp add: st_negative_break_def initial_state_def interval_tick_def tick_def
        tick_callback_def onCompleteCycle_def beep_def js_rem_def render_effects_def
        initialSeconds_def DEFAULT_SETTINGS_def Let_def to_double_exact)
  ultimately show ?thesis by simp
qed

text \<open>
  C10, amended. A tick with \<open>secondsLeft \<le> 1\<close>, 0 included, sets \<open>secondsLeft\<close> to exactly
  0 and runs the completion transition instead of decrementing; a tick with
  \<open>secondsLeft\<close> above 1 and at most \<open>2^53\<close> decrements it by exactly 1. With settings as
  the form and the defaults give them (every numeric field at least 1), every operation
  of the component keeps \<open>secondsLeft\<close> non-negative, and keeps the settings valid.
\<close>

theorem secondsLeft_never_negative:
  "(secondsLeft st \<le> 1 \<longrightarrow>
      tick_callback st =
        (onCompleteCycle (if sound (settings st) then beep st else st))\<lparr>secondsLeft := 0\<rparr>)
   \<and> (1 < secondsLeft st \<and> secondsLeft st \<le> 2 ^ 53 \<longrightarrow>
        tick st = st\<lparr>secondsLeft := secondsLeft st - 1\<rparr>)
   \<and> (valid_settings (settings st) \<and> 0 \<le> secondsLeft st \<and> action_ok a \<longrightarrow>
        0 \<le> secondsLeft (perform a st) \<and> valid_settings (settings (perform a st)))"
proof -
  have A: "secondsLeft st \<le> 1 \<longrightarrow>
      tick_callback st =
        (onCompleteCycle (if sound (settings st) then beep st else st))\<lparr>secondsLeft := 0\<rparr>"
    by (simp add: tick_callback_def Let_def)
  have B: "1 < secondsLeft st \<and> secondsLeft st \<le> 2 ^ 53 \<longrightarrow>
      tick st = st\<lparr>secondsLeft := secondsLeft st - 1\<rparr>"
    by (simp add: tick_decrement)
  have C: "0 \<le> secondsLeft (perform a st) \<and> valid_settings (settings (perform a st))"
    if v: "valid_settings (settings st)" and n: "0 \<le> secondsLeft st" and ok: "action_ok a"
  proof
    show "valid_settings (settings (perform a st))"
      using v ok unfolding perform_settings by (cases a) (simp_all add: action_ok_def)
    show "0 \<le> secondsLeft (perform a st)"
    proof (cases a)
      case Tick
      have "0 \<le> secondsLeft (tick st)"
        unfolding tick_def using v n
        by (intro render_effects_nonneg) (simp_all add: tick_callback_facts)
      with n Tick show ?thesis by (simp add: interval_tick_def)
    next
      case (Save s)
      with ok have "valid_settings s" by (simp add: action_ok_def)
      with n Save show ?thesis
        by (simp add: onSave_def render_effects_nonneg)
    qed (use v n in \<open>simp_all add: handleStartPause_def handleReset_def switchMode_def
          clearRounds_def render_effects_nonneg initialSeconds_nonneg\<close>)
  qed
  from A B C show ?thesis by blast
qed

theorem secondsLeft_never_negative_witness:
  "secondsLeft st_equal_durations \<le> 1
   \<and> secondsLeft (tick_callback st_equal_durations) = 0
   \<and> mode (tick_callback st_equal_durations) = Short
   \<and> 1 < secondsLeft st_form_open \<and> secondsLeft st_form_open \<le> 2 ^ 53
   \<and> secondsLeft (tick st_form_open) = 699
   \<and> valid_settings (settings st_equal_durations) \<and> 0 \<le> secondsLeft st_equal_durations
   \<and> action_ok Tick
   \<and> 0 \<le> secondsLeft (perform Tick st_equal_durations)"
proof -
  have h1: "secondsLeft st_equal_durations \<le> 1" "0 \<le> secondsLeft st_equal_durations"
    "valid_settings (settings st_equal_durations)" "action_ok Tick"
    by (simp_all add: st_equal_durations_def valid_settings_def DEFAULT_SETTINGS_def
        action_ok_def)
  have h2: "1 < secondsLeft st_form_open" "secondsLeft st_form_open \<le> 2 ^ 53"
    by (simp_all add: st_form_open_def)
  have "tick_callback st_equal_durations =
      (onCompleteCycle (if sound (settings st_equal_durations)
         then beep st_equal_durations else st_equal_durations))\<lparr>secondsLeft := 0\<rparr>"
    using secondsLeft_never_negative [of st_equal_durations Tick] h1 by simp
  then have a: "secondsLeft (tick_callback st_equal_durations) = 0"
    "mode (tick_callback st_equal_durations) = Short"
    by (simp_all add: onCompleteCycle_eq beep_def st_equal_durations_def DEFAULT_SETTINGS_def)
  have "tick st_form_open = st_form_open\<lparr>secondsLeft := secondsLeft st_form_open - 1\<rparr>"
    using secondsLeft_never_negative [of st_form_open Tick] h2 by simp
  then have b: "secondsLeft (tick st_form_open) = 699"
    by (simp add: st_form_open_def)
  have c: "0 \<le> secondsLeft (perform Tick st_equal_durations)"
    using secondsLeft_never_negative [of st_equal_durations Tick] h1 by simp
  from h1 h2 a b c show ?thesis by simp
qed

subsection \<open>Progress\<close>


subsection \<open>The formatted time\<close>

lemma digit_cases: "d < 10 \<Longrightarrow> d \<in> {0, 1, 2, 3, 4, 5, 6, 7, 8, 9::nat}"
  by auto

lemma digit_value_digit_char: "d < 10 \<Longrightarrow> digit_value (digit_char d) = d"
  using digit_cases [of d] by (auto simp: digit_value_def digit_char_def)

lemma is_digit_digit_char: "d < 10 \<Longrightarrow> is_digit (digit_char d)"
  using digit_cases [of d] by (auto simp: is_digit_def digit_char_def)

lemma digit_char_zero: "d < 10 \<Longrightarrow> digit_char d = CHR ''0'' \<longleftrightarrow> d = 0"
  using digit_cases [of d] by (auto simp: digit_char_def)

lemma decimal_value_snoc: "decimal_value (cs @ [c]) = 10 * decimal_value cs + digit_value c"
  by (simp add: decimal_value_def)

lemma decimal_value_nat_to_string: "decimal_value (nat_to_string n) = n"
proof (induction n rule: nat_to_string.induct)
  case (1 n)
  show ?case
  proof (cases "n < 10")
    case True
    then show ?thesis
      by (simp add: nat_to_string.simps [of n] decimal_value_def digit_value_digit_char)
  next
    case False
    with 1 show ?thesis
      by (simp add: nat_to_string.simps [of n] decimal_value_snoc digit_value_digit_char)
  qed
qed

lemma digits_nat_to_string: "list_all is_digit (nat_to_string n)"
proof (induction n rule: nat_to_string.induct)
  case (1 n)
  then show ?case
    by (cases "n < 10") (simp_all add: nat_to_string.simps [of n] is_digit_digit_char)
qed

lemma nat_to_string_nonempty: "nat_to_string n \<noteq> []"
  by (simp add: nat_to_string.simps [of n])

lemma hd_nat_to_string: "0 < n \<Longrightarrow> hd (nat_to_string n) \<noteq> CHR ''0''"
proof (induction n rule: nat_to_string.induct)
  case (1 n)
  show ?case
  proof (cases "n < 10")
    case True
    with 1 show ?thesis
      by (simp add: nat_to_string.simps [of n] digit_char_zero)
  next
    case False
    then have "0 < n div 10" by simp
    with 1 False show ?thesis
      by (simp add: nat_to_string.simps [of n] nat_to_string_nonempty)
  qed
qed

lemma length_nat_to_string_small: "n < 10 \<Longrightarrow> length (nat_to_string n) = 1"
  by (simp add: nat_to_string.simps [of n])

lemma length_nat_to_string_two: "n < 100 \<Longrightarrow> length (nat_to_string n) \<le> 2"
  by (simp add: nat_to_string.simps [of n] length_nat_to_string_small)

lemma decimal_value_zeros: "decimal_value (replicate k (CHR ''0'') @ cs) = decimal_value cs"
proof -
  have "foldl (\<lambda>acc c. 10 * acc + digit_value c) 0 (replicate k (CHR ''0'')) = 0"
    by (induction k) (simp_all add: digit_value_def)
  then show ?thesis by (simp add: decimal_value_def)
qed

lemma is_digit_zero: "is_digit (CHR ''0'')"
  by (simp add: is_digit_def)

lemma padStart_number:
  "decimal_value (padStart 2 (CHR ''0'') (nat_to_string n)) = n"
  "list_all is_digit (padStart 2 (CHR ''0'') (nat_to_string n))"
  "2 \<le> length (padStart 2 (CHR ''0'') (nat_to_string n))"
  "length (padStart 2 (CHR ''0'') (nat_to_string n)) = 2
     \<or> hd (padStart 2 (CHR ''0'') (nat_to_string n)) \<noteq> CHR ''0''"
  "n < 100 \<Longrightarrow> length (padStart 2 (CHR ''0'') (nat_to_string n)) = 2"
proof -
  show "decimal_value (padStart 2 (CHR ''0'') (nat_to_string n)) = n"
    by (simp add: padStart_def decimal_value_zeros decimal_value_nat_to_string)
  show "list_all is_digit (padStart 2 (CHR ''0'') (nat_to_string n))"
    using digits_nat_to_string [of n] by (auto simp: padStart_def is_digit_zero list_all_iff)
  show "2 \<le> length (padStart 2 (CHR ''0'') (nat_to_string n))"
    by (simp add: padStart_def)
  show "n < 100 \<Longrightarrow> length (padStart 2 (CHR ''0'') (nat_to_string n)) = 2"
    using length_nat_to_string_two [of n] by (simp add: padStart_def)
  show "length (padStart 2 (CHR ''0'') (nat_to_string n)) = 2
     \<or> hd (padStart 2 (CHR ''0'') (nat_to_string n)) \<noteq> CHR ''0''"
  proof (cases "n < 100")
    case True
    then show ?thesis
      using length_nat_to_string_two [of n] by (simp add: padStart_def)
  next
    case False
    then have "10 \<le> n div 10" by simp
    then have "length (nat_to_string n) \<noteq> 1 \<and> length (nat_to_string n) \<noteq> 0" 
      using False by (simp add: nat_to_string.simps [of n] nat_to_string.simps [of "n div 10"] )
    then have "2 \<le> length (nat_to_string n)"
      by arith
    with False show ?thesis
      using hd_nat_to_string [of n] by (simp add: padStart_def)
  qed
qed

lemma js_rem_nonneg: "0 \<le> t \<Longrightarrow> js_rem t 60 = Some (t mod 60)"
  by (cases "t = 0") (simp_all add: js_rem_def sgn_if)

lemma toString_nonneg:
  "0 \<le> i \<Longrightarrow> i \<le> 2 ^ 53 \<Longrightarrow> toString i = nat_to_string (nat i)"
proof -
  assume "0 \<le> i" and "i \<le> 2 ^ 53"
  then have "nat i \<le> nat (2 ^ 53)"
    by simp
  then have "nat i \<le> 2 ^ 53"
    by simp
  with \<open>0 \<le> i\<close> show ?thesis
    by (simp add: toString_def number_to_string_def)
qed

lemma formatTime_nonneg:
  assumes "0 \<le> t" and "t \<le> 2 ^ 53"
  shows "formatTime t = padStart 2 (CHR ''0'') (nat_to_string (nat (t div 60))) @ '':''
                  @ padStart 2 (CHR ''0'') (nat_to_string (nat (t mod 60)))"
proof -
  have "t div 60 \<le> t" "t mod 60 \<le> t"
    using assms(1) by presburger+
  then have "0 \<le> t div 60" "0 \<le> t mod 60" "t div 60 \<le> 2 ^ 53" "t mod 60 \<le> 2 ^ 53"
    using assms by (simp_all add: pos_imp_zdiv_nonneg_iff)
  then have "toString (t div 60) = nat_to_string (nat (t div 60))"
    "toString (t mod 60) = nat_to_string (nat (t mod 60))"
    by (simp_all only: toString_nonneg)
  then show ?thesis
    by (simp add: formatTime_def js_rem_nonneg [OF assms(1)] js_divide_60_floor [OF assms]
        Let_def)
qed

text \<open>
  The double nearest to \<open>4803839602528543 * 60\<close> is \<open>288230376151712576\<close>, the doubles
  there being 64 apart. Its quotient by 60 is \<open>4803839602528542.93...\<close>, between two
  doubles that are one half apart, and is rounded up to \<open>4803839602528543\<close>.
\<close>

lemma big_duration: "to_double (4803839602528543 * 60) = 288230376151712576"
  by code_simp

lemma big_quotient: "\<lfloor>js_divide 288230376151712576 60\<rfloor> = 4803839602528543"
  by code_simp

text \<open>
  C7, as stated: for every non-negative integer \<open>totalSeconds\<close> the minutes field is the
  floor of \<open>totalSeconds / 60\<close>. A work interval of 4803839602528543 minutes, which the
  form accepts, has 288230376151712576 seconds; they are displayed with the minutes
  4803839602528543, where the floor of the quotient is 4803839602528542.
\<close>

theorem formatTime_rounding_counterexample:
  "initialSeconds (DEFAULT_SETTINGS\<lparr>workMinutes := 4803839602528543\<rparr>) Work
     = 288230376151712576
   \<and> (0::int) \<le> 288230376151712576
   \<and> formatTime 288230376151712576 = ''4803839602528543:56''
   \<and> (288230376151712576::int) div 60 = 4803839602528542
   \<and> (288230376151712576::int) mod 60 = 56"
proof -
  have "toString 4803839602528543 = nat_to_string (nat 4803839602528543)"
    by (rule toString_nonneg) simp_all
  then have m: "toString 4803839602528543 = ''4803839602528543''"
    by (simp add: nat_to_string.simps digit_char_def)
  have "toString 56 = nat_to_string (nat 56)"
    by (rule toString_nonneg) simp_all
  then have r: "toString 56 = ''56''"
    by (simp add: nat_to_string.simps digit_char_def)
  have "formatTime 288230376151712576 = ''4803839602528543:56''"
    by (simp add: formatTime_def big_quotient js_rem_def m r padStart_def)
  then show ?thesis
    using big_duration by (simp add: initialSeconds_def)
qed

text \<open>
  C7, amended. For every integer \<open>totalSeconds\<close> from 0 to \<open>2^53\<close> the result is a minutes
  field, a colon and a seconds field. Both fields are decimal digits only; the minutes
  field reads as \<open>totalSeconds div 60\<close>, the seconds field as \<open>totalSeconds mod 60\<close>; the
  seconds field has exactly two characters, the minutes field at least two and no
  leading zero beyond the width 2. In particular 65, 0 and 3599 give 01:05, 00:00 and
  59:59.
\<close>

theorem formatTime_spec:
  "(0 \<le> t \<and> t \<le> 2 ^ 53 \<longrightarrow>
      (\<exists>mm ss. formatTime t = mm @ '':'' @ ss
         \<and> 2 \<le> length mm \<and> length ss = 2
         \<and> list_all is_digit mm \<and> list_all is_digit ss
         \<and> int (decimal_value mm) = t div 60 \<and> int (decimal_value ss) = t mod 60
         \<and> (length mm = 2 \<or> hd mm \<noteq> CHR ''0'')))
   \<and> formatTime 65 = ''01:05'' \<and> formatTime 0 = ''00:00'' \<and> formatTime 3599 = ''59:59''"
proof -
  have general: "\<exists>mm ss. formatTime t = mm @ '':'' @ ss
         \<and> 2 \<le> length mm \<and> length ss = 2
         \<and> list_all is_digit mm \<and> list_all is_digit ss
         \<and> int (decimal_value mm) = t div 60 \<and> int (decimal_value ss) = t mod 60
         \<and> (length mm = 2 \<or> hd mm \<noteq> CHR ''0'')" if t: "0 \<le> t" "t \<le> 2 ^ 53"
  proof -
    let ?mm = "padStart 2 (CHR ''0'') (nat_to_string (nat (t div 60)))"
    let ?ss = "padStart 2 (CHR ''0'') (nat_to_string (nat (t mod 60)))"
    have "0 \<le> t div 60" "0 \<le> t mod 60" "nat (t mod 60) < 100"
      using t by (simp_all add: pos_imp_zdiv_nonneg_iff nat_less_iff)
    moreover have "formatTime t = ?mm @ '':'' @ ?ss"
      using t by (rule formatTime_nonneg)
    ultimately have "formatTime t = ?mm @ '':'' @ ?ss" "2 \<le> length ?mm" "length ?ss = 2"
      "list_all is_digit ?mm" "list_all is_digit ?ss"
      "int (decimal_value ?mm) = t div 60" "int (decimal_value ?ss) = t mod 60"
      "length ?mm = 2 \<or> hd ?mm \<noteq> CHR ''0''"
      by (simp_all only: padStart_number nat_0_le)
    then show ?thesis by blast
  qed
  have ex1: "formatTime 65 = ''01:05''"
    by (simp add: formatTime_nonneg padStart_def nat_to_string.simps digit_char_def)
  have ex2: "formatTime 0 = ''00:00''"
    by (simp add: formatTime_nonneg padStart_def nat_to_string.simps digit_char_def)
  have ex3: "formatTime 3599 = ''59:59''"
    by (simp add: formatTime_nonneg padStart_def nat_to_string.simps digit_char_def)
  from general ex1 ex2 ex3 show ?thesis by blast
qed

theorem formatTime_spec_witness:
  "(0::int) \<le> 6000 \<and> (6000::int) \<le> 2 ^ 53 \<and> formatTime 6000 = ''100:00''
   \<and> (\<exists>mm ss. formatTime 6000 = mm @ '':'' @ ss
         \<and> 2 \<le> length mm \<and> length ss = 2
         \<and> list_all is_digit mm \<and> list_all is_digit ss
         \<and> int (decimal_value mm) = 6000 div 60 \<and> int (decimal_value ss) = 6000 mod 60
         \<and> (length mm = 2 \<or> hd mm \<noteq> CHR ''0''))"
proof -
  have z: "(0::int) \<le> 6000 \<and> (6000::int) \<le> 2 ^ 53"
    by simp
  have g: "(0::int) \<le> 6000 \<and> (6000::int) \<le> 2 ^ 53 \<longrightarrow>
      (\<exists>mm ss. formatTime 6000 = mm @ '':'' @ ss
         \<and> 2 \<le> length mm \<and> length ss = 2
         \<and> list_all is_digit mm \<and> list_all is_digit ss
         \<and> int (decimal_value mm) = 6000 div 60 \<and> int (decimal_value ss) = 6000 mod 60
         \<and> (length mm = 2 \<or> hd mm \<noteq> CHR ''0''))"
    using formatTime_spec [of 6000] by (rule conjunct1)
  have e: "formatTime 6000 = ''100:00''"
    by (simp add: formatTime_nonneg padStart_def nat_to_string.simps digit_char_def)
  from z g e show ?thesis by blast
qed

subsection \<open>Loading the settings\<close>

lemma spread_lookup:
  "spread obj kvs k = (case map_of (rev kvs) k of Some v \<Rightarrow> Some v | None \<Rightarrow> obj k)"
proof (induction kvs arbitrary: obj)
  case Nil
  then show ?case by (simp add: spread_def)
next
  case (Cons kv kvs)
  obtain k' v' where kv: "kv = (k', v')" by (cases kv)
  have "spread obj (kv # kvs) k = spread (obj(k' \<mapsto> v')) kvs k"
    by (simp add: spread_def kv)
  also have "\<dots> = (case map_of (rev kvs) k of Some v \<Rightarrow> Some v | None \<Rightarrow> (obj(k' \<mapsto> v')) k)"
    by (rule Cons.IH)
  finally show ?case
    by (simp add: kv map_add_def split: option.splits)
qed

lemma spread_missing: "k \<notin> fst ` set kvs \<Longrightarrow> spread obj kvs k = obj k"
proof -
  assume "k \<notin> fst ` set kvs"
  then have "map_of (rev kvs) k = None"
    by (simp add: map_of_eq_None_iff)
  then show ?thesis by (simp add: spread_lookup)
qed

lemma loadSettings_never_throws: "\<exists>obj. loadSettings getItem parse = Inr obj"
  by (simp add: loadSettings_def split: sum.split)

text \<open>
  C9. \<open>loadSettings\<close> never throws. When reading the store throws, when nothing or the
  empty string is stored, and when the stored text does not parse, the result is exactly
  the default settings. When the text parses, the result has every property of the
  parsed value, and every other field, so each of the six that is missing, has its
  default value.
\<close>

theorem loadSettings_spec:
  "(\<exists>obj. loadSettings getItem parse = Inr obj)
   \<and> ((\<exists>e. getItem STORAGE_KEY = Inl e) \<longrightarrow>
        loadSettings getItem parse = Inr (settings_object DEFAULT_SETTINGS))
   \<and> (getItem STORAGE_KEY = Inr None \<longrightarrow>
        loadSettings getItem parse = Inr (settings_object DEFAULT_SETTINGS))
   \<and> (getItem STORAGE_KEY = Inr (Some raw) \<and> (raw = [] \<or> (\<exists>e. parse raw = Inl e)) \<longrightarrow>
        loadSettings getItem parse = Inr (settings_object DEFAULT_SETTINGS))
   \<and> (getItem STORAGE_KEY = Inr (Some raw) \<and> raw \<noteq> [] \<and> parse raw = Inr parsed \<longrightarrow>
        (\<exists>obj. loadSettings getItem parse = Inr obj
           \<and> (\<forall>k. k \<notin> fst ` set (own_props parsed) \<longrightarrow>
                  obj k = settings_object DEFAULT_SETTINGS k)
           \<and> (\<forall>k. k \<in> fst ` set (own_props parsed) \<longrightarrow>
                  obj k = map_of (rev (own_props parsed)) k)))"
proof (intro conjI impI)
  show "\<exists>obj. loadSettings getItem parse = Inr obj"
    by (rule loadSettings_never_throws)
next
  assume "\<exists>e. getItem STORAGE_KEY = Inl e"
  then show "loadSettings getItem parse = Inr (settings_object DEFAULT_SETTINGS)"
    by (auto simp: loadSettings_def loadSettings_try_def)
next
  assume "getItem STORAGE_KEY = Inr None"
  then show "loadSettings getItem parse = Inr (settings_object DEFAULT_SETTINGS)"
    by (simp add: loadSettings_def loadSettings_try_def)
next
  assume "getItem STORAGE_KEY = Inr (Some raw) \<and> (raw = [] \<or> (\<exists>e. parse raw = Inl e))"
  then show "loadSettings getItem parse = Inr (settings_object DEFAULT_SETTINGS)"
    by (auto simp: loadSettings_def loadSettings_try_def)
next
  assume a: "getItem STORAGE_KEY = Inr (Some raw) \<and> raw \<noteq> [] \<and> parse raw = Inr parsed"
  let ?obj = "spread (settings_object DEFAULT_SETTINGS) (own_props parsed)"
  have "loadSettings getItem parse = Inr ?obj"
    using a by (simp add: loadSettings_def loadSettings_try_def)
  moreover have "\<forall>k. k \<notin> fst ` set (own_props parsed) \<longrightarrow>
      ?obj k = settings_object DEFAULT_SETTINGS k"
    by (simp add: spread_missing)
  moreover have "\<forall>k. k \<in> fst ` set (own_props parsed) \<longrightarrow>
      ?obj k = map_of (rev (own_props parsed)) k"
  proof (intro allI impI)
    fix k assume "k \<in> fst ` set (own_props parsed)"
    then have "map_of (rev (own_props parsed)) k \<noteq> None"
      by (simp add: map_of_eq_None_iff)
    then show "?obj k = map_of (rev (own_props parsed)) k"
      by (auto simp: spread_lookup)
  qed
  ultimately show "\<exists>obj. loadSettings getItem parse = Inr obj
           \<and> (\<forall>k. k \<notin> fst ` set (own_props parsed) \<longrightarrow>
                  obj k = settings_object DEFAULT_SETTINGS k)
           \<and> (\<forall>k. k \<in> fst ` set (own_props parsed) \<longrightarrow>
                  obj k = map_of (rev (own_props parsed)) k)"
    by blast
qed

lemma stored_blob_nonempty: "stored_blob \<noteq> []"
  by (simp add: stored_blob_def)

lemma own_props_blob: "fst ` set (own_props (JObj [(''workMinutes'', JNum 50), (''sound'', JBool False)])) = {''workMinutes'', ''sound''}"
  by (simp add: own_props_def)

theorem loadSettings_spec_witness:
  "loadSettings (\<lambda>k. Inl SecurityError) parse_blob = Inr (settings_object DEFAULT_SETTINGS)
   \<and> loadSettings (\<lambda>k. Inr None) parse_blob = Inr (settings_object DEFAULT_SETTINGS)
   \<and> loadSettings (\<lambda>k. Inr (Some ''{not json'')) parse_blob = Inr (settings_object DEFAULT_SETTINGS)
   \<and> (\<exists>obj. loadSettings (\<lambda>k. Inr (Some stored_blob)) parse_blob = Inr obj
        \<and> obj ''longBreakMinutes'' = Some (JNum 15)
        \<and> obj ''workMinutes'' = Some (JNum 50)
        \<and> obj ''sound'' = Some (JBool False))"
proof -
  have 1: "loadSettings (\<lambda>k. Inl SecurityError) parse_blob = Inr (settings_object DEFAULT_SETTINGS)"
    using loadSettings_spec [of "\<lambda>k. Inl SecurityError" parse_blob] by simp
  have 2: "loadSettings (\<lambda>k. Inr None) parse_blob = Inr (settings_object DEFAULT_SETTINGS)"
    using loadSettings_spec [of "\<lambda>k. Inr None" parse_blob] by simp
  have 3: "loadSettings (\<lambda>k. Inr (Some ''{not json'')) parse_blob = Inr (settings_object DEFAULT_SETTINGS)"
    using loadSettings_spec [of "\<lambda>k. Inr (Some ''{not json'')" parse_blob "''{not json''"]
    by (simp add: parse_blob_def stored_blob_def)
  let ?J = "JObj [(''workMinutes'', JNum 50), (''sound'', JBool False)]"
  have pre: "(\<lambda>k. Inr (Some stored_blob)) STORAGE_KEY = Inr (Some stored_blob)
      \<and> stored_blob \<noteq> [] \<and> parse_blob stored_blob = Inr ?J"
    by (simp add: parse_blob_def stored_blob_nonempty)
  have "\<exists>obj. loadSettings (\<lambda>k. Inr (Some stored_blob)) parse_blob = Inr obj
           \<and> (\<forall>k. k \<notin> fst ` set (own_props ?J) \<longrightarrow>
                  obj k = settings_object DEFAULT_SETTINGS k)
           \<and> (\<forall>k. k \<in> fst ` set (own_props ?J) \<longrightarrow>
                  obj k = map_of (rev (own_props ?J)) k)"
    using loadSettings_spec [of "\<lambda>k. Inr (Some stored_blob)" parse_blob stored_blob ?J] pre
    by blast
  then obtain obj where o: "loadSettings (\<lambda>k. Inr (Some stored_blob)) parse_blob = Inr obj"
    and miss: "\<And>k. k \<notin> fst ` set (own_props ?J) \<Longrightarrow> obj k = settings_object DEFAULT_SETTINGS k"
    and pres: "\<And>k. k \<in> fst ` set (own_props ?J) \<Longrightarrow> obj k = map_of (rev (own_props ?J)) k"
    by blast
  have "obj ''longBreakMinutes'' = Some (JNum 15)"
    using miss [of "''longBreakMinutes''"]
    by (simp add: own_props_blob settings_object_def DEFAULT_SETTINGS_def)
  moreover have "obj ''workMinutes'' = Some (JNum 50)"
    using pres [of "''workMinutes''"] by (simp add: own_props_def)
  moreover have "obj ''sound'' = Some (JBool False)"
    using pres [of "''sound''"] by (simp add: own_props_def)
  ultimately have 4: "\<exists>obj. loadSettings (\<lambda>k. Inr (Some stored_blob)) parse_blob = Inr obj
        \<and> obj ''longBreakMinutes'' = Some (JNum 15)
        \<and> obj ''workMinutes'' = Some (JNum 50)
        \<and> obj ''sound'' = Some (JBool False)"
    using o by blast
  from 1 2 3 4 show ?thesis by blast
qed

end
